theory Spec2Isabelle
  imports Main "HOL-Library.Multiset"
begin

section \<open>Mesh and block kind codes\<close>

text \<open>
  \<^verbatim>\<open>VTKUtils.h\<close> compares the two integer fields \<^verbatim>\<open>MeshType\<close> and \<^verbatim>\<open>BlockType\<close> of a
  \<^verbatim>\<open>MeshMetadata\<close> with the data object codes of VTK's \<^verbatim>\<open>vtkType.h\<close>. That header is
  not part of the sources; the codes are given here with the values VTK assigns them.
  The general results about the predicates hold for any values of the codes; only the
  worked examples evaluate them.
\<close>

definition VTK_POLY_DATA :: int where
  "VTK_POLY_DATA = 0"

definition VTK_STRUCTURED_GRID :: int where
  "VTK_STRUCTURED_GRID = 2"

definition VTK_RECTILINEAR_GRID :: int where
  "VTK_RECTILINEAR_GRID = 3"

definition VTK_UNSTRUCTURED_GRID :: int where
  "VTK_UNSTRUCTURED_GRID = 4"

definition VTK_IMAGE_DATA :: int where
  "VTK_IMAGE_DATA = 6"

definition VTK_UNIFORM_GRID :: int where
  "VTK_UNIFORM_GRID = 10"

definition VTK_NON_OVERLAPPING_AMR :: int where
  "VTK_NON_OVERLAPPING_AMR = 30"

definition VTK_OVERLAPPING_AMR :: int where
  "VTK_OVERLAPPING_AMR = 31"

text \<open>
  \<^verbatim>\<open>MeshMetadata\<close> is declared in \<^verbatim>\<open>MeshMetadata.h\<close>. The classification predicates read
  two of its fields; every other field lives in the extension part of the record, so
  the predicates are defined on \<open>'a MeshMetadata_scheme\<close>. The predicates take a
  \<^verbatim>\<open>MeshMetadataPtr\<close> and dereference it without a check; the model starts from the
  pointee.
\<close>

record MeshMetadata =
  MeshType :: int
  BlockType :: int

section \<open>Classification predicates\<close>

definition AMR :: "'a MeshMetadata_scheme \<Rightarrow> bool" where
  "AMR md = ((MeshType md = VTK_OVERLAPPING_AMR) \<or>
     (MeshType md = VTK_NON_OVERLAPPING_AMR))"

definition Structured :: "'a MeshMetadata_scheme \<Rightarrow> bool" where
  "Structured md = ((BlockType md = VTK_STRUCTURED_GRID) \<or>
     (MeshType md = VTK_STRUCTURED_GRID))"

definition Polydata :: "'a MeshMetadata_scheme \<Rightarrow> bool" where
  "Polydata md = ((BlockType md = VTK_POLY_DATA) \<or> (MeshType md = VTK_POLY_DATA))"

definition Unstructured :: "'a MeshMetadata_scheme \<Rightarrow> bool" where
  "Unstructured md = ((BlockType md = VTK_UNSTRUCTURED_GRID) \<or>
     (MeshType md = VTK_UNSTRUCTURED_GRID))"

definition StretchedCartesian :: "'a MeshMetadata_scheme \<Rightarrow> bool" where
  "StretchedCartesian md = ((BlockType md = VTK_RECTILINEAR_GRID) \<or>
     (MeshType md = VTK_RECTILINEAR_GRID))"

definition UniformCartesian :: "'a MeshMetadata_scheme \<Rightarrow> bool" where
  "UniformCartesian md = ((BlockType md = VTK_IMAGE_DATA) \<or> (MeshType md = VTK_IMAGE_DATA)
     \<or> (BlockType md = VTK_UNIFORM_GRID) \<or> (MeshType md = VTK_UNIFORM_GRID))"

definition LogicallyCartesian :: "'a MeshMetadata_scheme \<Rightarrow> bool" where
  "LogicallyCartesian md = (Structured md \<or> UniformCartesian md \<or> StretchedCartesian md)"

section \<open>Data arrays and \<^verbatim>\<open>GetPointer\<close>\<close>

text \<open>
  The template argument \<^verbatim>\<open>VTK_TT\<close> of \<^verbatim>\<open>GetPointer\<close> is a C++ scalar type. The model
  passes it as a tag.
\<close>

datatype VTK_TT =
  TT_double | TT_float | TT_long_long | TT_unsigned_long_long | TT_long | TT_unsigned_long
  | TT_int | TT_unsigned_int | TT_short | TT_unsigned_short | TT_char | TT_signed_char
  | TT_unsigned_char

text \<open>
  An object behind a \<^verbatim>\<open>vtkDataArray*\<close>. Its dynamic class decides the two
  \<^verbatim>\<open>dynamic_cast\<close>s of \<^verbatim>\<open>GetPointer\<close>:
  \<^item> \<open>AOSDataArray\<close>: a \<^verbatim>\<open>vtkAOSDataArrayTemplate<T>\<close> or a class derived from it
    (\<^verbatim>\<open>vtkDoubleArray\<close>, ...), with its element type, class name, number of components
    and its one buffer, the components of a tuple next to each other;
  \<^item> \<open>SOADataArray\<close>: a \<^verbatim>\<open>vtkSOADataArrayTemplate<T>\<close>, with its element type, class name
    and one buffer per component;
  \<^item> \<open>OtherDataArray\<close>: any other subclass of \<^verbatim>\<open>vtkDataArray\<close>, with its class name.
  The values of type \<open>'a\<close> are the array's elements.
\<close>

datatype 'a vtkDataArray =
  AOSDataArray VTK_TT string nat "'a list"
  | SOADataArray VTK_TT string "'a list list"
  | OtherDataArray string

text \<open>
  A non-null pointer is a buffer and a position in it; \<^verbatim>\<open>nullptr\<close> is \<open>None\<close> of
  \<open>'a ptr option\<close>. Reading \<^verbatim>\<open>p[i]\<close> is defined inside the buffer only.
\<close>

datatype 'a ptr = Ptr "'a list" nat

fun deref :: "'a ptr \<Rightarrow> nat \<Rightarrow> 'a option" where
  "deref (Ptr buf off) i = (if off + i < length buf then Some (buf ! (off + i)) else None)"

text \<open>Calling a member function through a null pointer is a fault of the program.\<close>

datatype fault = NullDereference

fun dynamic_cast_AOS :: "VTK_TT \<Rightarrow> 'a vtkDataArray option \<Rightarrow> 'a vtkDataArray option" where
  "dynamic_cast_AOS tt (Some (AOSDataArray tt' cn nc buf)) =
     (if tt' = tt then Some (AOSDataArray tt' cn nc buf) else None)"
| "dynamic_cast_AOS tt _ = None"

fun dynamic_cast_SOA :: "VTK_TT \<Rightarrow> 'a vtkDataArray option \<Rightarrow> 'a vtkDataArray option" where
  "dynamic_cast_SOA tt (Some (SOADataArray tt' cn bufs)) =
     (if tt' = tt then Some (SOADataArray tt' cn bufs) else None)"
| "dynamic_cast_SOA tt _ = None"

fun ClassName :: "'a vtkDataArray \<Rightarrow> string" where
  "ClassName (AOSDataArray tt cn nc buf) = cn"
| "ClassName (SOADataArray tt cn bufs) = cn"
| "ClassName (OtherDataArray cn) = cn"

fun GetClassName :: "'a vtkDataArray option \<Rightarrow> fault + string" where
  "GetClassName None = Inl NullDereference"
| "GetClassName (Some a) = Inr (ClassName a)"

text \<open>
  Modelled from the spec: the member functions \<^verbatim>\<open>GetPointer(valueIdx)\<close> of VTK's
  \<^verbatim>\<open>vtkAOSDataArrayTemplate\<close> and \<^verbatim>\<open>vtkSOADataArrayTemplate\<close> are not in the sources.
  After the spec (sections 2 and 3) the interleaved array answers with a pointer into
  its one buffer, and the separated array with a pointer into a component's buffer,
  here the first one (the only one of the single-component arrays the accessor
  supports). Neither looks at the number of components.
\<close>

fun AOS_GetPointer :: "'a vtkDataArray option \<Rightarrow> nat \<Rightarrow> fault + 'a ptr option" where
  "AOS_GetPointer (Some (AOSDataArray tt cn nc buf)) valueIdx = Inr (Some (Ptr buf valueIdx))"
| "AOS_GetPointer _ valueIdx = Inl NullDereference"

fun SOA_GetPointer :: "'a vtkDataArray option \<Rightarrow> nat \<Rightarrow> fault + 'a ptr option" where
  "SOA_GetPointer (Some (SOADataArray tt cn bufs)) valueIdx =
     Inr (Some (Ptr (case bufs of [] \<Rightarrow> [] | b # _ \<Rightarrow> b) valueIdx))"
| "SOA_GetPointer _ valueIdx = Inl NullDereference"

text \<open>
  \<^verbatim>\<open>SENSEI_ERROR\<close> (of \<^verbatim>\<open>Error.h\<close>) writes a message to the error stream. A call of
  \<^verbatim>\<open>GetPointer\<close> yields either a fault or the messages it reported together with the
  pointer it returned.
\<close>

definition GetPointer :: "VTK_TT \<Rightarrow> 'a vtkDataArray option \<Rightarrow> fault + (string list \<times> 'a ptr option)" where
  "GetPointer tt da =
     (case dynamic_cast_AOS tt da of
        Some aosDa \<Rightarrow> map_sum id (Pair []) (AOS_GetPointer (Some aosDa) 0)
      | None \<Rightarrow>
         (case dynamic_cast_SOA tt da of
            Some soaDa \<Rightarrow> map_sum id (Pair []) (SOA_GetPointer (Some soaDa) 0)
          | None \<Rightarrow>
              map_sum id (\<lambda>cn. ([''Invalid vtkDataArray '' @ cn], None))
                (case da of Some _ \<Rightarrow> GetClassName da | None \<Rightarrow> Inr ''nullptr'')))"

text \<open>
  The logical contents of an array, as its accessors \<^verbatim>\<open>GetNumberOfComponents\<close>,
  \<^verbatim>\<open>GetNumberOfTuples\<close> and \<^verbatim>\<open>GetTypedComponent\<close> show them: tuple \<open>i\<close> of an interleaved
  array is the slice \<open>[i * nc, (i + 1) * nc)\<close> of its buffer, tuple \<open>i\<close> of a
  separated array takes position \<open>i\<close> of every component buffer.
\<close>

fun GetNumberOfComponents :: "'a vtkDataArray \<Rightarrow> nat" where
  "GetNumberOfComponents (AOSDataArray tt cn nc buf) = nc"
| "GetNumberOfComponents (SOADataArray tt cn bufs) = length bufs"
| "GetNumberOfComponents (OtherDataArray cn) = 0"

fun GetNumberOfTuples :: "'a vtkDataArray \<Rightarrow> nat" where
  "GetNumberOfTuples (AOSDataArray tt cn nc buf) = (if nc = 0 then 0 else length buf div nc)"
| "GetNumberOfTuples (SOADataArray tt cn bufs) =
     (case bufs of [] \<Rightarrow> 0 | b # bs \<Rightarrow> fold min (map length bs) (length b))"
| "GetNumberOfTuples (OtherDataArray cn) = 0"

fun GetTypedComponent :: "'a vtkDataArray \<Rightarrow> nat \<Rightarrow> nat \<Rightarrow> 'a option" where
  "GetTypedComponent (AOSDataArray tt cn nc buf) i c =
     (if c < nc \<and> i * nc + c < length buf then Some (buf ! (i * nc + c)) else None)"
| "GetTypedComponent (SOADataArray tt cn bufs) i c =
     (if c < length bufs \<and> i < length (bufs ! c) then Some (bufs ! c ! i) else None)"
| "GetTypedComponent (OtherDataArray cn) i c = None"

definition GetTuples :: "'a vtkDataArray \<Rightarrow> 'a option list list" where
  "GetTuples da =
     map (\<lambda>i. map (GetTypedComponent da i) [0..<GetNumberOfComponents da])
       [0..<GetNumberOfTuples da]"

section \<open>Associations\<close>

text \<open>
  \<^verbatim>\<open>VTKUtils.h\<close> declares \<^verbatim>\<open>int GetAssociation(std::string assocStr, int &assoc)\<close> and
  \<^verbatim>\<open>const char *GetAttributesName(int association)\<close>; their bodies are not in the
  sources. The association is the spec's enumeration of three values (section 3), named
  as VTK names them.
\<close>

datatype Association = POINT | CELL | FIELD

text \<open>
  Modelled from the spec: the body of \<^verbatim>\<open>GetAssociation\<close> is missing. After sections 4.2,
  6 and 7 it accepts exactly the spellings \<^verbatim>\<open>point\<close>, \<^verbatim>\<open>cell\<close> and \<^verbatim>\<open>field\<close>, compared
  as they are written, and any other string is a failure with a result that is no
  association: \<open>None\<close> here, the non-zero return value of the declaration.
\<close>

definition GetAssociation :: "string \<Rightarrow> Association option" where
  "GetAssociation assocStr =
     (if assocStr = ''point'' then Some POINT
      else if assocStr = ''cell'' then Some CELL
      else if assocStr = ''field'' then Some FIELD
      else None)"

text \<open>
  Modelled from the spec: the body of \<^verbatim>\<open>GetAttributesName\<close> is missing. After section 4.2
  it is the inverse of the parser, total over the three values.
\<close>

fun GetAttributesName :: "Association \<Rightarrow> string" where
  "GetAttributesName POINT = ''point''"
| "GetAttributesName CELL = ''cell''"
| "GetAttributesName FIELD = ''field''"

section \<open>Ghost layer metadata\<close>

text \<open>
  A mesh object with its auxiliary, non-geometric metadata store: named integer
  entries. Everything else of the object is in the extension part of the record.
\<close>

record MeshObject =
  AuxMetadata :: "string \<rightharpoonup> int"

text \<open>
  Modelled from the spec: the bodies of \<^verbatim>\<open>SetGhostLayerMetadata\<close> and
  \<^verbatim>\<open>GetGhostLayerMetadata\<close> are missing. After sections 4.4 and 6 the setter writes the
  two counts as two named integer entries of the store, over any earlier value, and
  returns 0; the getter returns 0 and the two counts when both entries are there, and
  a non-zero value (here \<open>-1\<close>) without any counts when they are not. The names of the
  entries are not in the spec; the parameter names of the declarations stand for them.
\<close>

definition SetGhostLayerMetadata :: "'a MeshObject_scheme \<Rightarrow> int \<Rightarrow> int \<Rightarrow> int \<times> 'a MeshObject_scheme" where
  "SetGhostLayerMetadata mesh nGhostCellLayers nGhostNodeLayers =
     (0, mesh\<lparr>AuxMetadata := (AuxMetadata mesh)
            (''nGhostCellLayers'' \<mapsto> nGhostCellLayers, ''nGhostNodeLayers'' \<mapsto> nGhostNodeLayers)\<rparr>)"

definition GetGhostLayerMetadata :: "'a MeshObject_scheme \<Rightarrow> int \<times> (int \<times> int) option" where
  "GetGhostLayerMetadata mesh =
     (case AuxMetadata mesh ''nGhostCellLayers'' of
        None \<Rightarrow> (- 1, None)
      | Some nGhostCellLayers \<Rightarrow>
          (case AuxMetadata mesh ''nGhostNodeLayers'' of
             None \<Rightarrow> (- 1, None)
           | Some nGhostNodeLayers \<Rightarrow> (0, Some (nGhostCellLayers, nGhostNodeLayers))))"

section \<open>Applying a function to the leaves\<close>

text \<open>
  A data object is a leaf dataset or a composite collection (spec, section 3): an
  ordered collection of leaves addressed by a flat block index, where a position can be
  empty on this rank. Position \<open>i\<close> of the list is block index \<open>i\<close>.
\<close>

datatype 'd vtkDataObject = DataSet 'd | CompositeDataSet "'d option list"

text \<open>
  The callback is a \<^verbatim>\<open>std::function\<close> and may change the leaf it is given and what it has
  captured: it takes the state \<open>'s\<close> of all that and returns its code with the new
  state. The comment on \<^verbatim>\<open>DatasetFunction\<close> gives the meaning of the code:
  0 for success, greater than zero to stop without error, less than zero to stop with
  error.
\<close>

type_synonym ('d, 's) DatasetFunction = "'d \<Rightarrow> 's \<Rightarrow> int \<times> 's"

datatype ApplyOutcome = Completed | StoppedWithoutError | StoppedWithError

definition Outcome :: "int \<Rightarrow> ApplyOutcome" where
  "Outcome ierr = (if ierr = 0 then Completed else if ierr > 0 then StoppedWithoutError
     else StoppedWithError)"

text \<open>
  Modelled from the spec: the body of \<^verbatim>\<open>Apply(vtkDataObject*, DatasetFunction&)\<close> is
  missing. After section 4.3 it visits the leaves by ascending block index, skips the
  positions that are empty on this rank, calls the function on each leaf, and at the
  first non-zero code stops and returns that code; the state the calls have built up
  stays. A call returns the code, the state, and the block indices at which the function
  was called, in the order of the calls (the last is a record for the proofs, not a
  value of the program).
\<close>

fun ApplyFrom :: "('d, 's) DatasetFunction \<Rightarrow> nat \<Rightarrow> 'd option list \<Rightarrow> 's \<Rightarrow> int \<times> 's \<times> nat list" where
  "ApplyFrom func i [] s = (0, s, [])"
| "ApplyFrom func i (None # blocks) s = ApplyFrom func (Suc i) blocks s"
| "ApplyFrom func i (Some ds # blocks) s =
     (case func ds s of
        (ierr, s') \<Rightarrow>
          if ierr \<noteq> 0 then (ierr, s', [i])
          else (case ApplyFrom func (Suc i) blocks s' of
                  (ierr', s'', visited) \<Rightarrow> (ierr', s'', i # visited)))"

fun Apply :: "('d, 's) DatasetFunction \<Rightarrow> 'd vtkDataObject \<Rightarrow> 's \<Rightarrow> int \<times> 's \<times> nat list" where
  "Apply func (DataSet ds) s = (case func ds s of (ierr, s') \<Rightarrow> (ierr, s', [0]))"
| "Apply func (CompositeDataSet blocks) s = ApplyFrom func 0 blocks s"

text \<open>
  The notions the properties of \<^verbatim>\<open>Apply\<close> are stated with: the leaves of a collection
  in block order, the block indices that hold a leaf, and the state after the function
  has run on a list of leaves one after the other.
\<close>

definition Leaves :: "'d option list \<Rightarrow> 'd list" where
  "Leaves blocks = map the (filter (\<lambda>b. b \<noteq> None) blocks)"

definition LeafIndices :: "'d option list \<Rightarrow> nat list" where
  "LeafIndices blocks = map fst (filter (\<lambda>(i, b). b \<noteq> None) (enumerate 0 blocks))"

definition StateAfter :: "('d, 's) DatasetFunction \<Rightarrow> 's \<Rightarrow> 'd list \<Rightarrow> 's" where
  "StateAfter func s dss = foldl (\<lambda>s ds. snd (func ds s)) s dss"

section \<open>Merging the arrays of the ranks\<close>

text \<open>
  An array as the metadata describes it (spec, section 3): name, association, element
  kind and number of components.
\<close>

type_synonym ArrayTuple = "string \<times> Association \<times> VTK_TT \<times> nat"

datatype MergeError = ArrayKindMismatch string Association

definition SameArray :: "ArrayTuple \<Rightarrow> ArrayTuple \<Rightarrow> bool" where
  "SameArray t u = (fst t = fst u \<and> fst (snd t) = fst (snd u))"

text \<open>
  Modelled from the spec: the bodies of \<^verbatim>\<open>GetMetadata\<close> are missing. After section 4.5 the
  collective merge takes the union of the ranks' array tuples, one entry for a name and
  association, and reports an inconsistency when two tuples of the same name and
  association differ in element kind or number of components. \<open>AddArray\<close> adds one
  tuple to the merged set, \<open>MergeArrays\<close> the tuples of one rank, \<open>MergeRanks\<close> the
  ranks one after the other.
\<close>

definition AddArray :: "ArrayTuple \<Rightarrow> ArrayTuple list \<Rightarrow> MergeError + ArrayTuple list" where
  "AddArray t merged =
     (case find (SameArray t) merged of
        None \<Rightarrow> Inr (merged @ [t])
      | Some u \<Rightarrow> if snd (snd u) = snd (snd t) then Inr merged
                 else Inl (ArrayKindMismatch (fst t) (fst (snd t))))"

fun MergeArrays :: "ArrayTuple list \<Rightarrow> ArrayTuple list \<Rightarrow> MergeError + ArrayTuple list" where
  "MergeArrays [] merged = Inr merged"
| "MergeArrays (t # ts) merged =
     (case AddArray t merged of Inl e \<Rightarrow> Inl e | Inr merged' \<Rightarrow> MergeArrays ts merged')"

fun MergeRanks :: "ArrayTuple list list \<Rightarrow> ArrayTuple list \<Rightarrow> MergeError + ArrayTuple list" where
  "MergeRanks [] merged = Inr merged"
| "MergeRanks (r # rs) merged =
     (case MergeArrays r merged of Inl e \<Rightarrow> Inl e | Inr merged' \<Rightarrow> MergeRanks rs merged')"

text \<open>
  Modelled from the spec: after sections 4.5, 5 and 7 every rank of the communicator
  takes part in the merge and holds its result afterwards. \<open>GetMetadata\<close> takes the
  local array tuples of the ranks, in rank order, and returns what each rank holds
  after the call.
\<close>

definition GetMetadata :: "ArrayTuple list list \<Rightarrow> (MergeError + ArrayTuple list) list" where
  "GetMetadata locals = replicate (length locals) (MergeRanks locals [])"

text \<open>
  A set of array tuples agrees when it has one tuple at most for a name and
  association.
\<close>

definition Agree :: "ArrayTuple set \<Rightarrow> bool" where
  "Agree S = (\<forall>t\<in>S. \<forall>u\<in>S. SameArray t u \<longrightarrow> t = u)"

section \<open>Properties of the classification predicates\<close>

text \<open>
  C7. For every \<^verbatim>\<open>MeshMetadata\<close> value, \<^verbatim>\<open>LogicallyCartesian\<close> is true exactly when
  \<^verbatim>\<open>Structured\<close>, \<^verbatim>\<open>UniformCartesian\<close> or \<^verbatim>\<open>StretchedCartesian\<close> is: it is the disjunction
  of the three predicates, and so holds exactly when the block type or the mesh type is
  one of the structured grid, image data, uniform grid and rectilinear grid codes.
\<close>

theorem LogicallyCartesian_is_disjunction:
  "LogicallyCartesian md = (Structured md \<or> UniformCartesian md \<or> StretchedCartesian md)
   \<and> LogicallyCartesian md =
       (BlockType md \<in> {VTK_STRUCTURED_GRID, VTK_IMAGE_DATA, VTK_UNIFORM_GRID, VTK_RECTILINEAR_GRID}
        \<or> MeshType md \<in> {VTK_STRUCTURED_GRID, VTK_IMAGE_DATA, VTK_UNIFORM_GRID, VTK_RECTILINEAR_GRID})"
proof
  show "LogicallyCartesian md = (Structured md \<or> UniformCartesian md \<or> StretchedCartesian md)"
    by (simp only: LogicallyCartesian_def)
next
  show "LogicallyCartesian md =
       (BlockType md \<in> {VTK_STRUCTURED_GRID, VTK_IMAGE_DATA, VTK_UNIFORM_GRID, VTK_RECTILINEAR_GRID}
        \<or> MeshType md \<in> {VTK_STRUCTURED_GRID, VTK_IMAGE_DATA, VTK_UNIFORM_GRID, VTK_RECTILINEAR_GRID})"
    unfolding LogicallyCartesian_def Structured_def UniformCartesian_def StretchedCartesian_def
    by blast
qed

text \<open>
  C9. \<^verbatim>\<open>AMR\<close> depends on \<^verbatim>\<open>MeshType\<close> only: it is true exactly when the mesh type is one
  of the two AMR codes, two values with the same mesh type get the same answer, and it
  is false when the mesh type is not an AMR code whatever the block type is, an AMR
  code included. The other predicates each test both fields: each is true exactly when
  the block type or the mesh type carries its code.
\<close>

theorem AMR_reads_MeshType_only:
  "AMR md = (MeshType md = VTK_OVERLAPPING_AMR \<or> MeshType md = VTK_NON_OVERLAPPING_AMR)
   \<and> (MeshType md = MeshType md' \<longrightarrow> AMR md = AMR md')
   \<and> (MeshType md \<noteq> VTK_OVERLAPPING_AMR \<and> MeshType md \<noteq> VTK_NON_OVERLAPPING_AMR \<longrightarrow>
        \<not> AMR (md\<lparr>BlockType := VTK_OVERLAPPING_AMR\<rparr>)
        \<and> \<not> AMR (md\<lparr>BlockType := VTK_NON_OVERLAPPING_AMR\<rparr>)
        \<and> \<not> AMR (md\<lparr>BlockType := b\<rparr>))
   \<and> Structured md = (BlockType md = VTK_STRUCTURED_GRID \<or> MeshType md = VTK_STRUCTURED_GRID)
   \<and> Polydata md = (BlockType md = VTK_POLY_DATA \<or> MeshType md = VTK_POLY_DATA)
   \<and> Unstructured md = (BlockType md = VTK_UNSTRUCTURED_GRID \<or> MeshType md = VTK_UNSTRUCTURED_GRID)
   \<and> StretchedCartesian md = (BlockType md = VTK_RECTILINEAR_GRID \<or> MeshType md = VTK_RECTILINEAR_GRID)
   \<and> UniformCartesian md = (BlockType md = VTK_IMAGE_DATA \<or> MeshType md = VTK_IMAGE_DATA
        \<or> BlockType md = VTK_UNIFORM_GRID \<or> MeshType md = VTK_UNIFORM_GRID)"
  by (simp add: AMR_def Structured_def Polydata_def Unstructured_def StretchedCartesian_def
      UniformCartesian_def)

text \<open>
  A block of overlapping AMR kind in a mesh recorded as a structured grid: \<^verbatim>\<open>AMR\<close>
  answers no, and the answer is the one of a poly data block in the same mesh.
\<close>

theorem AMR_reads_MeshType_only_witness:
  "\<not> AMR \<lparr>MeshType = VTK_STRUCTURED_GRID, BlockType = VTK_OVERLAPPING_AMR\<rparr>
   \<and> AMR \<lparr>MeshType = VTK_STRUCTURED_GRID, BlockType = VTK_OVERLAPPING_AMR\<rparr>
       = AMR \<lparr>MeshType = VTK_STRUCTURED_GRID, BlockType = VTK_POLY_DATA\<rparr>
   \<and> Structured \<lparr>MeshType = VTK_POLY_DATA, BlockType = VTK_STRUCTURED_GRID\<rparr>"
proof -
  have ne: "VTK_STRUCTURED_GRID \<noteq> VTK_OVERLAPPING_AMR
      \<and> VTK_STRUCTURED_GRID \<noteq> VTK_NON_OVERLAPPING_AMR"
    by (simp add: VTK_STRUCTURED_GRID_def VTK_OVERLAPPING_AMR_def VTK_NON_OVERLAPPING_AMR_def)
  show ?thesis
    using ne
      AMR_reads_MeshType_only
        [of "\<lparr>MeshType = VTK_STRUCTURED_GRID, BlockType = VTK_OVERLAPPING_AMR\<rparr>"
          "\<lparr>MeshType = VTK_STRUCTURED_GRID, BlockType = VTK_POLY_DATA\<rparr>"
          VTK_OVERLAPPING_AMR]
      AMR_reads_MeshType_only
        [of "\<lparr>MeshType = VTK_POLY_DATA, BlockType = VTK_STRUCTURED_GRID\<rparr>"
          "\<lparr>MeshType = VTK_POLY_DATA, BlockType = VTK_STRUCTURED_GRID\<rparr>"
          VTK_OVERLAPPING_AMR]
    by auto
qed

section \<open>Properties of \<^verbatim>\<open>GetPointer\<close>\<close>

lemma GetTuples_AOS_single:
  "GetTuples (AOSDataArray tt cn 1 xs) = map (\<lambda>i. [Some (xs ! i)]) [0..<length xs]"
  by (simp add: GetTuples_def)

lemma GetTuples_SOA_single:
  "GetTuples (SOADataArray tt cn [ys]) = map (\<lambda>i. [Some (ys ! i)]) [0..<length ys]"
  by (simp add: GetTuples_def)

lemma concat_singletons: "concat (map (\<lambda>i. [f i]) is) = map f is"
  by (induction "is") simp_all

lemma deref_whole_buffer: "map (deref (Ptr xs 0)) [0..<length xs] = map (\<lambda>i. Some (xs ! i)) [0..<length xs]"
  by simp

lemma GetPointer_AOS: "GetPointer tt (Some (AOSDataArray tt cn nc buf)) = Inr ([], Some (Ptr buf 0))"
  by (simp add: GetPointer_def)

lemma GetPointer_SOA:
  "GetPointer tt (Some (SOADataArray tt cn bufs)) =
     Inr ([], Some (Ptr (case bufs of [] \<Rightarrow> [] | b # _ \<Rightarrow> b) 0))"
  by (simp add: GetPointer_def)

text \<open>
  C1. A single-component array of element type \<open>T\<close> in interleaved layout and one in
  separated layout with the same logical contents: \<^verbatim>\<open>GetPointer<T>\<close> reports nothing
  for either and returns two non-null pointers, and reading them over the element
  range gives the same sequence, which is the sequence of the arrays' elements.
\<close>

theorem GetPointer_AOS_SOA_same_sequence:
  assumes "a = AOSDataArray tt cna 1 xs"
    and "b = SOADataArray tt cnb [ys]"
    and "GetTuples a = GetTuples b"
  shows "\<exists>p q. GetPointer tt (Some a) = Inr ([], Some p)
           \<and> GetPointer tt (Some b) = Inr ([], Some q)
           \<and> map (deref p) [0..<GetNumberOfTuples a] = map (deref q) [0..<GetNumberOfTuples b]
           \<and> map (deref p) [0..<GetNumberOfTuples a] = concat (GetTuples a)"
proof -
  have pa: "GetPointer tt (Some a) = Inr ([], Some (Ptr xs 0))"
    using assms(1) by (simp add: GetPointer_AOS)
  have pb: "GetPointer tt (Some b) = Inr ([], Some (Ptr ys 0))"
    using assms(2) by (simp add: GetPointer_SOA)
  have na: "GetNumberOfTuples a = length xs" and nb: "GetNumberOfTuples b = length ys"
    using assms(1,2) by simp_all
  have ca: "concat (GetTuples a) = map (deref (Ptr xs 0)) [0..<length xs]"
    unfolding assms(1) GetTuples_AOS_single concat_singletons deref_whole_buffer ..
  have cb: "concat (GetTuples b) = map (deref (Ptr ys 0)) [0..<length ys]"
    unfolding assms(2) GetTuples_SOA_single concat_singletons deref_whole_buffer ..
  have eq: "map (deref (Ptr xs 0)) [0..<length xs] = map (deref (Ptr ys 0)) [0..<length ys]"
    using ca cb assms(3) by (simp only:)
  show ?thesis
    unfolding pa pb na nb ca using eq by blast
qed

theorem GetPointer_AOS_SOA_same_sequence_witness:
  "\<exists>p q. GetPointer TT_int (Some (AOSDataArray TT_int ''vtkIntArray'' 1 [7, 8, 9 :: int]))
            = Inr ([], Some p)
         \<and> GetPointer TT_int (Some (SOADataArray TT_int ''vtkSOADataArrayTemplate<int>'' [[7, 8, 9]]))
            = Inr ([], Some q)
         \<and> map (deref p) [0..<3] = map (deref q) [0..<3]
         \<and> map (deref p) [0..<3] = [Some 7, Some 8, Some 9]"
proof -
  have t: "GetTuples (AOSDataArray TT_int ''vtkIntArray'' 1 [7, 8, 9 :: int])
      = GetTuples (SOADataArray TT_int ''vtkSOADataArrayTemplate<int>'' [[7, 8, 9]])"
    by (simp add: GetTuples_def upt_rec)
  have c: "concat (GetTuples (AOSDataArray TT_int ''vtkIntArray'' 1 [7, 8, 9 :: int]))
      = [Some 7, Some 8, Some 9]"
    by (simp add: GetTuples_def upt_rec)
  show ?thesis
    using GetPointer_AOS_SOA_same_sequence [OF refl refl t] c by (simp add: upt_rec)
qed

text \<open>
  C8, as the code has it. An array handle that is neither an interleaved nor a separated
  array of element type \<open>T\<close> (another class, another element type, or null) makes
  \<^verbatim>\<open>GetPointer<T>\<close> report \<^verbatim>\<open>Invalid vtkDataArray\<close> with the class name and return null.
  A separated array of \<open>T\<close> is accepted whatever its number of components:
  \<^verbatim>\<open>GetPointer<T>\<close> reports nothing and returns what the array's own \<^verbatim>\<open>GetPointer(0)\<close>
  returns. That only single-component separated arrays are passed is left to the caller.
\<close>

theorem GetPointer_invalid_array:
  "(dynamic_cast_AOS tt da = None \<and> dynamic_cast_SOA tt da = None \<longrightarrow>
      GetPointer tt da =
        Inr ([''Invalid vtkDataArray '' @ (case da of None \<Rightarrow> ''nullptr'' | Some a \<Rightarrow> ClassName a)], None))
   \<and> (\<exists>p. SOA_GetPointer (Some (SOADataArray tt cn bufs)) 0 = Inr (Some p)
          \<and> GetPointer tt (Some (SOADataArray tt cn bufs)) = Inr ([], Some p))"
proof (intro conjI impI)
  assume "dynamic_cast_AOS tt da = None \<and> dynamic_cast_SOA tt da = None"
  then show "GetPointer tt da =
        Inr ([''Invalid vtkDataArray '' @ (case da of None \<Rightarrow> ''nullptr'' | Some a \<Rightarrow> ClassName a)], None)"
    by (cases da) (simp_all add: GetPointer_def)
next
  show "\<exists>p. SOA_GetPointer (Some (SOADataArray tt cn bufs)) 0 = Inr (Some p)
          \<and> GetPointer tt (Some (SOADataArray tt cn bufs)) = Inr ([], Some p)"
    by (simp add: GetPointer_SOA)
qed

theorem GetPointer_invalid_array_witness:
  "GetPointer TT_double (Some (OtherDataArray ''vtkBitArray'' :: int vtkDataArray))
     = Inr ([''Invalid vtkDataArray vtkBitArray''], None)
   \<and> GetPointer TT_double (Some (AOSDataArray TT_float ''vtkFloatArray'' 1 [1 :: int]))
     = Inr ([''Invalid vtkDataArray vtkFloatArray''], None)"
  using GetPointer_invalid_array
      [of TT_double "Some (OtherDataArray ''vtkBitArray'' :: int vtkDataArray)", THEN conjunct1]
    GetPointer_invalid_array
      [of TT_double "Some (AOSDataArray TT_float ''vtkFloatArray'' 1 [1 :: int])", THEN conjunct1]
  by simp

text \<open>
  A separated array of two components and two tuples: nothing is reported and the
  pointer returned is not null.
\<close>

theorem GetPointer_multi_component_SOA_counterexample:
  "GetPointer TT_int (Some (SOADataArray TT_int ''vtkSOADataArrayTemplate<int>'' [[1, 2], [3, 4 :: int]]))
     = Inr ([], Some (Ptr [1, 2] 0))"
  by (simp add: GetPointer_def)

text \<open>
  C10. A null array handle is safe for every element type: both casts give null, the
  message is built from the literal \<^verbatim>\<open>nullptr\<close> and not from a call of \<^verbatim>\<open>GetClassName\<close>
  (which would be a fault on the null handle), and the call returns null without a
  fault.
\<close>

theorem GetPointer_nullptr_safe:
  "dynamic_cast_AOS tt (None :: 'a vtkDataArray option) = None
   \<and> dynamic_cast_SOA tt (None :: 'a vtkDataArray option) = None
   \<and> GetClassName (None :: 'a vtkDataArray option) = Inl NullDereference
   \<and> GetPointer tt (None :: 'a vtkDataArray option) = Inr ([''Invalid vtkDataArray nullptr''], None)"
  by (simp add: GetPointer_def)

section \<open>Properties of the association names\<close>

text \<open>
  C6. The parser accepts exactly the three spellings \<^verbatim>\<open>point\<close>, \<^verbatim>\<open>cell\<close> and \<^verbatim>\<open>field\<close>,
  each with its own association; every other string, \<^verbatim>\<open>Cell\<close> among them, gives the
  result that is no association; and the name of the parsed association is the string
  that was parsed, for each of the three spellings (and parsing the name of an
  association gives it back).
\<close>

theorem GetAssociation_three_spellings:
  "(GetAssociation s = Some a) = ((s, a) \<in> {(''point'', POINT), (''cell'', CELL), (''field'', FIELD)})
   \<and> (GetAssociation s = None) = (s \<noteq> ''point'' \<and> s \<noteq> ''cell'' \<and> s \<noteq> ''field'')
   \<and> GetAssociation ''Cell'' = None
   \<and> map_option GetAttributesName (GetAssociation ''point'') = Some ''point''
   \<and> map_option GetAttributesName (GetAssociation ''cell'') = Some ''cell''
   \<and> map_option GetAttributesName (GetAssociation ''field'') = Some ''field''
   \<and> GetAssociation (GetAttributesName a) = Some a"
  by (cases a) (auto simp add: GetAssociation_def)

text \<open>The lower-case spelling is parsed, the upper-case one is not.\<close>

theorem GetAssociation_three_spellings_witness:
  "GetAssociation ''cell'' = Some CELL \<and> GetAssociation ''CELL'' = None"
  using GetAssociation_three_spellings [of "''cell''" CELL]
    GetAssociation_three_spellings [of "''CELL''" CELL]
  by simp

section \<open>Properties of the ghost layer metadata\<close>

text \<open>
  C5. Setting the two counts succeeds, and reading them back from the mesh that was
  written finds them and yields the two counts that were set. On a mesh whose store
  lacks an entry, as on one that was never written, reading returns a non-zero value and
  no counts: no zeros are put in their place.
\<close>

theorem GhostLayerMetadata_roundtrip:
  "fst (SetGhostLayerMetadata mesh c n) = 0
   \<and> GetGhostLayerMetadata (snd (SetGhostLayerMetadata mesh c n)) = (0, Some (c, n))
   \<and> (AuxMetadata mesh ''nGhostCellLayers'' = None \<or> AuxMetadata mesh ''nGhostNodeLayers'' = None \<longrightarrow>
        fst (GetGhostLayerMetadata mesh) \<noteq> 0 \<and> snd (GetGhostLayerMetadata mesh) = None)"
  by (auto simp add: SetGhostLayerMetadata_def GetGhostLayerMetadata_def split: option.splits)

text \<open>The round trip of the spec with 2 and 1, and a mesh with an empty store.\<close>

theorem GhostLayerMetadata_roundtrip_witness:
  "GetGhostLayerMetadata (snd (SetGhostLayerMetadata \<lparr>AuxMetadata = Map.empty\<rparr> 2 1)) = (0, Some (2, 1))
   \<and> fst (GetGhostLayerMetadata \<lparr>AuxMetadata = Map.empty\<rparr>) \<noteq> 0
   \<and> snd (GetGhostLayerMetadata \<lparr>AuxMetadata = Map.empty\<rparr>) = None"
  using GhostLayerMetadata_roundtrip [of "\<lparr>AuxMetadata = Map.empty\<rparr>" 2 1]
  by simp

section \<open>Properties of \<^verbatim>\<open>Apply\<close>\<close>

lemma enumerate_filter_indices:
  "map fst (filter (\<lambda>(j, b). P b) (enumerate i xs)) = filter (\<lambda>j. P (xs ! (j - i))) [i..<i + length xs]"
proof (induction xs arbitrary: i)
  case Nil
  show ?case by simp
next
  case (Cons x xs)
  have shift: "filter (\<lambda>j. P ((x # xs) ! (j - i))) [Suc i..<Suc i + length xs]
      = filter (\<lambda>j. P (xs ! (j - Suc i))) [Suc i..<Suc i + length xs]"
  proof (rule filter_cong)
    fix j assume "j \<in> set [Suc i..<Suc i + length xs]"
    then have "j - i = Suc (j - Suc i)" by auto
    then show "P ((x # xs) ! (j - i)) = P (xs ! (j - Suc i))" by simp
  qed simp
  have upt: "[i..<i + length (x # xs)] = i # [Suc i..<Suc i + length xs]"
    using upt_conv_Cons [of i "i + length (x # xs)"] by simp
  show ?case
    unfolding upt using Cons.IH [of "Suc i"] shift by simp
qed

lemma LeafIndices_filter: "LeafIndices blocks = filter (\<lambda>i. blocks ! i \<noteq> None) [0..<length blocks]"
  unfolding LeafIndices_def using enumerate_filter_indices [of "\<lambda>b. b \<noteq> None" 0 blocks] by simp

lemma LeafIndices_ascending: "sorted_wrt (<) (LeafIndices blocks)"
  unfolding LeafIndices_filter by (rule sorted_wrt_filter) (rule sorted_wrt_upt)

lemma LeafIndices_distinct: "distinct (LeafIndices blocks)"
  unfolding LeafIndices_filter by simp

lemma Leaves_simps:
  "Leaves [] = []" "Leaves (None # blocks) = Leaves blocks" "Leaves (Some ds # blocks) = ds # Leaves blocks"
  by (simp_all add: Leaves_def)

lemma StateAfter_Cons: "StateAfter func s (ds # dss) = StateAfter func (snd (func ds s)) dss"
  by (simp add: StateAfter_def Leaves_simps)

lemma StateAfter_snoc: "StateAfter func s (dss @ [ds]) = snd (func ds (StateAfter func s dss))"
  by (simp add: StateAfter_def Leaves_simps)

lemma ApplyFrom_all_zero:
  assumes "\<And>ds s. fst (func ds s) = 0"
  shows "ApplyFrom func i blocks s =
     (0, StateAfter func s (Leaves blocks),
      map fst (filter (\<lambda>(i, b). b \<noteq> None) (enumerate i blocks)))"
proof (induction blocks arbitrary: i s)
  case Nil
  show ?case by (simp add: StateAfter_def Leaves_simps)
next
  case (Cons b blocks)
  show ?case
  proof (cases b)
    case None
    then show ?thesis using Cons.IH by (simp add: Leaves_simps)
  next
    case (Some ds)
    obtain s' where f: "func ds s = (0, s')"
      using assms [of ds s] by (cases "func ds s") simp
    show ?thesis using Some f Cons.IH [of "Suc i" s'] by (simp add: StateAfter_Cons Leaves_simps)
  qed
qed

lemma ApplyFrom_first_nonzero:
  assumes "k < length (Leaves blocks)"
    and "\<And>j. j < k \<Longrightarrow>
      fst (func (Leaves blocks ! j) (StateAfter func s (take j (Leaves blocks)))) = 0"
    and "fst (func (Leaves blocks ! k) (StateAfter func s (take k (Leaves blocks)))) \<noteq> 0"
  shows "ApplyFrom func i blocks s =
     (fst (func (Leaves blocks ! k) (StateAfter func s (take k (Leaves blocks)))),
      StateAfter func s (take (Suc k) (Leaves blocks)),
      take (Suc k) (map fst (filter (\<lambda>(i, b). b \<noteq> None) (enumerate i blocks))))"
  using assms
proof (induction blocks arbitrary: i s k)
  case Nil
  then show ?case by (simp add: Leaves_simps)
next
  case (Cons b blocks)
  show ?case
  proof (cases b)
    case None
    then show ?thesis using Cons.IH [of k s "Suc i"] Cons.prems by (simp add: Leaves_simps)
  next
    case (Some ds)
    show ?thesis
    proof (cases k)
      case 0
      then have "fst (func ds s) \<noteq> 0"
        using Cons.prems(3) Some by (simp add: StateAfter_def Leaves_simps)
      then show ?thesis
        using 0 Some by (cases "func ds s") (simp add: StateAfter_def Leaves_simps)
    next
      case (Suc k')
      have z: "fst (func ds s) = 0"
        using Cons.prems(2) [of 0] Suc Some by (simp add: StateAfter_def Leaves_simps)
      then obtain s1 where f: "func ds s = (0, s1)"
        by (cases "func ds s") simp
      have p1: "k' < length (Leaves blocks)"
        using Cons.prems(1) Suc Some by (simp add: Leaves_simps)
      have p2: "fst (func (Leaves blocks ! j)
            (StateAfter func s1 (take j (Leaves blocks)))) = 0" if "j < k'" for j
        using Cons.prems(2) [of "Suc j"] that Suc Some f by (simp add: StateAfter_Cons Leaves_simps)
      have p3: "fst (func (Leaves blocks ! k')
            (StateAfter func s1 (take k' (Leaves blocks)))) \<noteq> 0"
        using Cons.prems(3) Suc Some f by (simp add: StateAfter_Cons Leaves_simps)
      show ?thesis
        using Cons.IH [of k' s1 "Suc i", OF p1 p2 p3] Suc Some f
        by (simp add: StateAfter_Cons Leaves_simps)
    qed
  qed
qed

lemma filter_nth_upt: "map (\<lambda>i. xs ! i) (filter (\<lambda>i. P (xs ! i)) [0..<length xs]) = filter P xs"
proof (induction xs rule: rev_induct)
  case Nil
  show ?case by simp
next
  case (snoc x xs)
  have "map (\<lambda>i. (xs @ [x]) ! i) (filter (\<lambda>i. P ((xs @ [x]) ! i)) [0..<length xs])
      = map (\<lambda>i. xs ! i) (filter (\<lambda>i. P (xs ! i)) [0..<length xs])"
    by (intro map_cong filter_cong) (auto simp add: nth_append)
  then show ?case using snoc.IH by simp
qed

lemma Leaves_at_LeafIndices: "map (\<lambda>i. blocks ! i) (LeafIndices blocks) = map Some (Leaves blocks)"
proof -
  have "map Some (Leaves blocks) = filter (\<lambda>b. b \<noteq> None) blocks"
    unfolding Leaves_def by (induction blocks) auto
  then show ?thesis
    unfolding LeafIndices_filter using filter_nth_upt [of blocks "\<lambda>b. b \<noteq> None"] by simp
qed

text \<open>
  C3. With a callback that returns 0 on every call, \<^verbatim>\<open>Apply\<close> on a composite collection
  returns 0, has called the function at exactly the block indices that hold a leaf, each
  once and in ascending order, on the leaves in that order, and the state is the one
  after all these calls.
\<close>

theorem Apply_visits_every_leaf_once:
  assumes "\<forall>ds s. fst (func ds s) = 0"
  shows "Apply func (CompositeDataSet blocks) s
           = (0, StateAfter func s (Leaves blocks), LeafIndices blocks)
         \<and> LeafIndices blocks = filter (\<lambda>i. blocks ! i \<noteq> None) [0..<length blocks]
         \<and> map (\<lambda>i. blocks ! i) (LeafIndices blocks) = map Some (Leaves blocks)
         \<and> sorted_wrt (<) (LeafIndices blocks)
         \<and> distinct (LeafIndices blocks)"
proof -
  have "ApplyFrom func 0 blocks s
      = (0, StateAfter func s (Leaves blocks), LeafIndices blocks)"
    unfolding LeafIndices_def using assms by (intro ApplyFrom_all_zero) simp
  then show ?thesis
    using LeafIndices_filter [of blocks] Leaves_at_LeafIndices [of blocks]
      LeafIndices_ascending [of blocks] LeafIndices_distinct [of blocks]
    by simp
qed

text \<open>
  Four blocks, the second one empty on this rank; the callback appends the leaf it was
  given to the state.
\<close>

theorem Apply_visits_every_leaf_once_witness:
  "Apply (\<lambda>ds s. (0, s @ [ds])) (CompositeDataSet [Some (4::nat), None, Some 6, Some 5]) []
     = (0, [4, 6, 5], [0, 2, 3])"
proof -
  let ?f = "\<lambda>(ds::nat) s. (0::int, s @ [ds])"
  let ?b = "[Some (4::nat), None, Some 6, Some 5]"
  have h: "\<forall>ds s. fst (?f ds s) = 0" by simp
  have l: "Leaves ?b = [4, 6, 5]" by (simp add: Leaves_def)
  have e: "enumerate 0 ?b = [(0, Some 4), (1, None), (2, Some 6), (3, Some 5)]"
    by (simp add: enumerate_eq_zip upt_rec)
  have i: "LeafIndices ?b = [0, 2, 3]" unfolding LeafIndices_def e by simp
  have s: "StateAfter ?f [] [4, 6, 5] = [4, 6, 5]" by (simp add: StateAfter_def)
  show ?thesis
    using Apply_visits_every_leaf_once [OF h, of ?b "[]", THEN conjunct1]
    unfolding l i s .
qed

text \<open>
  C2. Let leaf \<open>k\<close> (counting the leaves that are there, in block order) be the first at
  which the callback returns a non-zero code, given the state the earlier calls have
  built up. Then \<^verbatim>\<open>Apply\<close> returns that code, has called the function at the block
  indices of the leaves \<open>0..k\<close> and at no later one, and the state is the one after these
  \<open>k + 1\<close> calls: nothing is rolled back. By the contract of the callback a positive
  code is a stop without error and a negative one a stop with error.
\<close>

theorem Apply_stops_at_first_nonzero:
  assumes "k < length (Leaves blocks)"
    and "\<forall>j<k. fst (func (Leaves blocks ! j) (StateAfter func s (take j (Leaves blocks)))) = 0"
    and "func (Leaves blocks ! k) (StateAfter func s (take k (Leaves blocks))) = (ierr, s')"
    and "ierr \<noteq> 0"
  shows "Apply func (CompositeDataSet blocks) s = (ierr, s', take (Suc k) (LeafIndices blocks))
         \<and> s' = StateAfter func s (take (Suc k) (Leaves blocks))
         \<and> (ierr > 0 \<longrightarrow> Outcome (fst (Apply func (CompositeDataSet blocks) s)) = StoppedWithoutError)
         \<and> (ierr < 0 \<longrightarrow> Outcome (fst (Apply func (CompositeDataSet blocks) s)) = StoppedWithError)"
proof -
  have nz: "fst (func (Leaves blocks ! k) (StateAfter func s (take k (Leaves blocks)))) \<noteq> 0"
    using assms(3,4) by simp
  have st: "StateAfter func s (take (Suc k) (Leaves blocks)) = s'"
    using assms(1,3) by (simp add: take_Suc_conv_app_nth StateAfter_snoc)
  have "ApplyFrom func 0 blocks s =
     (fst (func (Leaves blocks ! k) (StateAfter func s (take k (Leaves blocks)))),
      StateAfter func s (take (Suc k) (Leaves blocks)),
      take (Suc k) (map fst (filter (\<lambda>(i, b). b \<noteq> None) (enumerate 0 blocks))))"
    using assms(1,2) nz by (intro ApplyFrom_first_nonzero) simp_all
  then have "Apply func (CompositeDataSet blocks) s = (ierr, s', take (Suc k) (LeafIndices blocks))"
    using st assms(3) by (simp add: LeafIndices_def)
  then show ?thesis
    using st by (simp add: Outcome_def)
qed

text \<open>
  The callback answers \<open>-1\<close> on the leaf 6: the leaf 5 behind it is never passed to the
  function.
\<close>

theorem Apply_stops_at_first_nonzero_witness:
  "Apply (\<lambda>ds s. (if ds = 6 then - 1 else 0, s @ [ds]))
       (CompositeDataSet [Some (4::nat), None, Some 6, Some 5]) []
     = (- 1, [4, 6], [0, 2])
   \<and> Outcome (fst (Apply (\<lambda>ds s. (if ds = 6 then - 1 else 0, s @ [ds]))
       (CompositeDataSet [Some (4::nat), None, Some 6, Some 5]) [])) = StoppedWithError"
proof -
  let ?f = "\<lambda>(ds::nat) s. (if ds = 6 then - 1 else 0::int, s @ [ds])"
  let ?b = "[Some (4::nat), None, Some 6, Some 5]"
  have l: "Leaves ?b = [4, 6, 5]" by (simp add: Leaves_def)
  have e: "enumerate 0 ?b = [(0, Some 4), (1, None), (2, Some 6), (3, Some 5)]"
    by (simp add: enumerate_eq_zip upt_rec)
  have i: "LeafIndices ?b = [0, 2, 3]" unfolding LeafIndices_def e by simp
  have h1: "1 < length (Leaves ?b)" unfolding l by simp
  have h2: "\<forall>j<1. fst (?f (Leaves ?b ! j) (StateAfter ?f [] (take j (Leaves ?b)))) = 0"
    unfolding l by simp
  have h3: "?f (Leaves ?b ! 1) (StateAfter ?f [] (take 1 (Leaves ?b))) = (- 1, [4, 6])"
    unfolding l by (simp add: StateAfter_def)
  have h4: "(- 1 :: int) \<noteq> 0" by simp
  have t: "take (Suc 1) [0, 2, 3::nat] = [0, 2]" by simp
  show ?thesis
    using Apply_stops_at_first_nonzero [of 1 ?b ?f "[]" "- 1" "[4, 6]", OF h1 h2 h3 h4]
    unfolding i t by simp
qed

section \<open>Properties of the merge\<close>

lemma SameArray_eq: "SameArray t u \<Longrightarrow> snd (snd u) = snd (snd t) \<Longrightarrow> t = u"
  by (simp add: SameArray_def prod_eq_iff)

lemma SameArray_sym: "SameArray t u \<Longrightarrow> SameArray u t"
  by (simp add: SameArray_def)

lemma Agree_insert:
  assumes "Agree S" and "\<forall>u\<in>S. \<not> SameArray t u"
  shows "Agree (insert t S)"
  unfolding Agree_def
proof (intro ballI impI)
  fix a b assume a: "a \<in> insert t S" and b: "b \<in> insert t S" and ab: "SameArray a b"
  show "a = b"
  proof (cases "a = t")
    case True
    then have "b \<notin> S" using assms(2) ab by blast
    then show ?thesis using True b by blast
  next
    case False
    then have aS: "a \<in> S" using a by blast
    have "b \<noteq> t" using aS assms(2) SameArray_sym [OF ab] by blast
    then have "b \<in> S" using b by blast
    then show ?thesis using aS ab assms(1) unfolding Agree_def by blast
  qed
qed

lemma AddArray_Inr:
  assumes "AddArray t merged = Inr merged'" and "Agree (set merged)"
  shows "Agree (set merged') \<and> set merged' = insert t (set merged)"
proof (cases "find (SameArray t) merged")
  case None
  then have new: "\<forall>u\<in>set merged. \<not> SameArray t u"
    using find_None_iff [of "SameArray t" merged] by blast
  have m: "merged' = merged @ [t]"
    using assms(1) None by (simp add: AddArray_def)
  have "Agree (insert t (set merged))"
    using assms(2) new by (rule Agree_insert)
  then show ?thesis unfolding m by simp
next
  case (Some u)
  then have u: "u \<in> set merged \<and> SameArray t u"
    using find_Some_iff [of "SameArray t" merged u] by (metis nth_mem)
  have k: "snd (snd u) = snd (snd t)" and m: "merged' = merged"
    using assms(1) unfolding AddArray_def Some by (simp_all split: if_splits)
  have "t = u" using u k by (blast intro: SameArray_eq)
  then have "insert t (set merged) = set merged" using u by blast
  then show ?thesis unfolding m using assms(2) by simp
qed


lemma MergeArrays_Inr:
  "MergeArrays ts merged = Inr res \<Longrightarrow> Agree (set merged) \<Longrightarrow>
     Agree (set res) \<and> set res = set merged \<union> set ts"
proof (induction ts arbitrary: merged)
  case Nil
  then show ?case by simp
next
  case (Cons t ts)
  obtain merged' where a: "AddArray t merged = Inr merged'"
    and r: "MergeArrays ts merged' = Inr res"
    using Cons.prems(1) by (cases "AddArray t merged") simp_all
  have 1: "Agree (set merged')" and 2: "set merged' = insert t (set merged)"
    using AddArray_Inr [OF a Cons.prems(2)] by blast+
  have 3: "Agree (set res)" and 4: "set res = set merged' \<union> set ts"
    using Cons.IH [OF r 1] by blast+
  show ?case using 3 4 2 by simp
qed

lemma MergeRanks_Inr:
  "MergeRanks rs merged = Inr res \<Longrightarrow> Agree (set merged) \<Longrightarrow>
     Agree (set res) \<and> set res = set merged \<union> set (concat rs)"
proof (induction rs arbitrary: merged)
  case Nil
  then show ?case by simp
next
  case (Cons r rs)
  obtain merged' where a: "MergeArrays r merged = Inr merged'"
    and m: "MergeRanks rs merged' = Inr res"
    using Cons.prems(1) by (cases "MergeArrays r merged") simp_all
  have 1: "Agree (set merged')" and 2: "set merged' = set merged \<union> set r"
    using MergeArrays_Inr [OF a Cons.prems(2)] by blast+
  have 3: "Agree (set res)" and 4: "set res = set merged' \<union> set (concat rs)"
    using Cons.IH [OF m 1] by blast+
  show ?case using 3 4 2 by (simp add: Un_assoc)
qed

lemma MergeRanks_conflict:
  assumes "t \<in> set r1" "r1 \<in> set rs" "u \<in> set r2" "r2 \<in> set rs"
    and "SameArray t u" and "snd (snd t) \<noteq> snd (snd u)"
  shows "\<exists>name assoc. MergeRanks rs [] = Inl (ArrayKindMismatch name assoc)"
proof (cases "MergeRanks rs []")
  case (Inl e)
  then show ?thesis by (cases e) simp
next
  case (Inr res)
  have "Agree (set [])" by (simp add: Agree_def)
  from MergeRanks_Inr [OF Inr this] have ag: "Agree (set res)"
    and s: "set res = set [] \<union> set (concat rs)" by blast+
  have "t \<in> set res" "u \<in> set res" unfolding s using assms(1-4) by auto
  then have "t = u" using ag assms(5) unfolding Agree_def by blast
  then show ?thesis using assms(6) by simp
qed

text \<open>Two ranks that disagree on the kind of \<^verbatim>\<open>pressure\<close>, and two that agree.\<close>

lemma MergeRanks_pressure_mismatch: "MergeRanks [[(''pressure'', CELL, TT_double, 1)], [(''pressure'', CELL, TT_float, 1)], []] []
   = Inl (ArrayKindMismatch ''pressure'' CELL)"
  by (simp add: AddArray_def SameArray_def)

lemma MergeRanks_agreeing_ranks: "MergeRanks [[(''pressure'', CELL, TT_double, 1)], [(''pressure'', CELL, TT_double, 1), (''t'', POINT, TT_float, 3)]] []
   = Inr [(''pressure'', CELL, TT_double, 1), (''t'', POINT, TT_float, 3)]"
  by (simp add: AddArray_def SameArray_def)

text \<open>
  C4. When the local array tuples of two ranks have the same name and association and
  differ in element kind or number of components, every rank holds the same
  \<open>ArrayKindMismatch\<close> failure after the merge, none holds a merged set of arrays, and
  this is so in whatever order the ranks' tuples arrive.
\<close>

theorem GetMetadata_kind_mismatch:
  assumes "i < length locals" and "j < length locals"
    and "(name, assoc, kind, ncomp) \<in> set (locals ! i)"
    and "(name, assoc, kind', ncomp') \<in> set (locals ! j)"
    and "kind \<noteq> kind' \<or> ncomp \<noteq> ncomp'"
  shows "(\<exists>n a. \<forall>rank < length locals. GetMetadata locals ! rank = Inl (ArrayKindMismatch n a))
         \<and> (\<forall>arrival. mset arrival = mset locals \<longrightarrow>
               (\<forall>rank < length arrival. \<exists>n a. GetMetadata arrival ! rank = Inl (ArrayKindMismatch n a)))"
proof -
  let ?t = "(name, assoc, kind, ncomp)" and ?u = "(name, assoc, kind', ncomp')"
  have same: "SameArray ?t ?u" by (simp add: SameArray_def)
  have diff: "snd (snd ?t) \<noteq> snd (snd ?u)" using assms(5) by auto
  have fail: "\<exists>n a. MergeRanks arrival [] = Inl (ArrayKindMismatch n a)"
    if "mset arrival = mset locals" for arrival
  proof -
    have "set arrival = set locals" using that by (rule mset_eq_setD)
    then have "locals ! i \<in> set arrival" "locals ! j \<in> set arrival"
      using assms(1,2) by simp_all
    then show ?thesis
      using MergeRanks_conflict [OF assms(3) _ assms(4) _ same diff] by blast
  qed
  from fail [of locals] obtain n a where "MergeRanks locals [] = Inl (ArrayKindMismatch n a)"
    by auto
  then have 1: "\<exists>n a. \<forall>rank < length locals. GetMetadata locals ! rank = Inl (ArrayKindMismatch n a)"
    by (auto simp add: GetMetadata_def)
  have 2: "\<forall>arrival. mset arrival = mset locals \<longrightarrow>
      (\<forall>rank < length arrival. \<exists>n a. GetMetadata arrival ! rank = Inl (ArrayKindMismatch n a))"
    using fail by (auto simp add: GetMetadata_def)
  show ?thesis using 1 2 by blast
qed

text \<open>
  Three ranks: \<^verbatim>\<open>pressure\<close> on cells as \<^verbatim>\<open>double\<close> on the first, as \<^verbatim>\<open>float\<close> on the
  second, no array on the third.
\<close>

theorem GetMetadata_kind_mismatch_witness:
  "\<exists>n a. GetMetadata [[(''pressure'', CELL, TT_double, 1)], [(''pressure'', CELL, TT_float, 1)], []] ! 0
             = Inl (ArrayKindMismatch n a)
         \<and> GetMetadata [[(''pressure'', CELL, TT_double, 1)], [(''pressure'', CELL, TT_float, 1)], []] ! 1
             = Inl (ArrayKindMismatch n a)
         \<and> GetMetadata [[(''pressure'', CELL, TT_double, 1)], [(''pressure'', CELL, TT_float, 1)], []] ! 2
             = Inl (ArrayKindMismatch n a)"
proof -
  let ?L = "[[(''pressure'', CELL, TT_double, 1::nat)], [(''pressure'', CELL, TT_float, 1)], []]"
  have h1: "0 < length ?L" and h2: "1 < length ?L" by simp_all
  have h3: "(''pressure'', CELL, TT_double, 1) \<in> set (?L ! 0)" by simp
  have h4: "(''pressure'', CELL, TT_float, 1) \<in> set (?L ! 1)" by simp
  have h5: "TT_double \<noteq> TT_float \<or> (1::nat) \<noteq> 1" by simp
  obtain n a where r: "\<forall>rank < length ?L. GetMetadata ?L ! rank = Inl (ArrayKindMismatch n a)"
    using GetMetadata_kind_mismatch [OF h1 h2 h3 h4 h5] by blast
  have "GetMetadata ?L ! 0 = Inl (ArrayKindMismatch n a)"
    "GetMetadata ?L ! 1 = Inl (ArrayKindMismatch n a)"
    "GetMetadata ?L ! 2 = Inl (ArrayKindMismatch n a)"
    using r by simp_all
  then show ?thesis by blast
qed

end
